theory Spec2Isabelle
  imports Main
begin

section \<open>The patch engine of the daemon (lxd/patches.go)\<close>

subsection \<open>Stages\<close>

text \<open>
  The source declares \<^verbatim>\<open>type patchStage int\<close> and four constants by \<^verbatim>\<open>iota\<close>.
  A stage is therefore an integer; the constants are 0, 1, 2 and 3.
\<close>

type_synonym patchStage = int

definition patchNoStageSet :: patchStage where
  "patchNoStageSet = 0"

definition patchPreDaemonStorage :: patchStage where
  "patchPreDaemonStorage = 1"

definition patchPostDaemonStorage :: patchStage where
  "patchPostDaemonStorage = 2"

definition patchPostNetworks :: patchStage where
  "patchPostNetworks = 3"

subsection \<open>Errors and formatting\<close>

text \<open>
  Go errors as values. \<^verbatim>\<open>fmt.Errorf\<close> without \<^verbatim>\<open>%w\<close> yields an error that only
  carries its message; with \<^verbatim>\<open>%w\<close> it yields an error that carries the whole
  formatted message and the wrapped error, which \<^verbatim>\<open>Unwrap\<close> gives back.
\<close>

datatype error = ErrorString string | WrapError string error

fun Error :: "error \<Rightarrow> string" where
  "Error (ErrorString msg) = msg"
| "Error (WrapError msg err) = msg"

fun Unwrap :: "error \<Rightarrow> error option" where
  "Unwrap (ErrorString msg) = None"
| "Unwrap (WrapError msg err) = Some err"

text \<open>
  \<^verbatim>\<open>fmt.Errorf(prefix + "%w", err)\<close>: the message is the prefix followed by the
  message of the wrapped error.
\<close>

definition Errorf_w :: "string \<Rightarrow> error \<Rightarrow> error" where
  "Errorf_w prefix err = WrapError (prefix @ Error err) err"

text \<open>
  The verb \<^verbatim>\<open>%q\<close> belongs to Go's library \<^verbatim>\<open>fmt\<close>, not to the daemon. The engine
  below takes its rendering of a string as a parameter \<open>q\<close>, so that what is proved of
  the engine holds for every rendering, Go's own included.

  \<open>quote_ascii\<close> is Go's rendering on strings of ASCII bytes: the string in double
  quotes, with the double quote, the backslash and the control characters escaped. It
  is the rendering used in the concrete runs, whose names are all ASCII. On bytes from
  0x80 on, where Go decodes UTF-8 and escapes what is invalid or not printable, it is
  not Go's rendering: it keeps those bytes.
\<close>

definition hex_digit :: "nat \<Rightarrow> char" where
  "hex_digit n = ''0123456789abcdef'' ! (n mod 16)"

definition quote_char :: "char \<Rightarrow> string" where
  "quote_char c =
     (if c = CHR 0x22 then [CHR 0x5C, CHR 0x22]
      else if c = CHR 0x5C then [CHR 0x5C, CHR 0x5C]
      else if c = CHR 0x07 then [CHR 0x5C, CHR ''a'']
      else if c = CHR 0x08 then [CHR 0x5C, CHR ''b'']
      else if c = CHR 0x0C then [CHR 0x5C, CHR ''f'']
      else if c = CHR 0x0A then [CHR 0x5C, CHR ''n'']
      else if c = CHR 0x0D then [CHR 0x5C, CHR ''r'']
      else if c = CHR 0x09 then [CHR 0x5C, CHR ''t'']
      else if c = CHR 0x0B then [CHR 0x5C, CHR ''v'']
      else if (of_char c :: nat) < 32 \<or> c = CHR 0x7F
        then [CHR 0x5C, CHR ''x'', hex_digit ((of_char c :: nat) div 16), hex_digit (of_char c :: nat)]
      else [c])"

definition quote_ascii :: "string \<Rightarrow> string" where
  "quote_ascii s = [CHR 0x22] @ concat (map quote_char s) @ [CHR 0x22]"

text \<open>The verb \<^verbatim>\<open>%d\<close> on an integer: its decimal digits, with a minus sign if negative.\<close>

fun digits :: "nat \<Rightarrow> string" where
  "digits n =
     (if n < 10 then [char_of (48 + n)]
      else digits (n div 10) @ [char_of (48 + n mod 10)])"

declare digits.simps [simp del]

definition fmt_d :: "int \<Rightarrow> string" where
  "fmt_d i = (if i < 0 then CHR ''-'' # digits (nat (- i)) else digits (nat i))"

subsection \<open>The daemon, as far as the engine touches it\<close>

text \<open>
  What the engine does is observed in a journal: the line that \<^verbatim>\<open>patch.apply\<close>
  logs before it runs a body (\<^verbatim>\<open>logger.Info("Applying patch", ...)\<close>), the return of
  the body, and each call of \<^verbatim>\<open>MarkPatchAsApplied\<close> with its outcome.
\<close>

datatype event =
    Applying string
  | BodyReturned string "error option"
  | MarkApplied string "error option"

text \<open>
  The daemon handle \<^verbatim>\<open>d\<close>. \<open>node_patches\<close> is the table of applied patch names in
  the node database (\<^verbatim>\<open>d.db.Node\<close>); \<open>world\<close> is everything else that a patch body
  reads and changes (file system, cluster database, networks). The node database is an
  external collaborator that can fail: \<open>get_fault\<close> and \<open>mark_fault\<close> say, for the
  present world, whether reading the table or inserting a name fails, and with which
  error. The table is written through \<^verbatim>\<open>MarkPatchAsApplied\<close> only: patch bodies are
  payloads that act on the world, and the engine never deletes a record.
\<close>

record 'w Daemon =
  node_patches :: "string list"
  get_fault :: "'w \<Rightarrow> error option"
  mark_fault :: "string \<Rightarrow> 'w \<Rightarrow> error option"
  world :: 'w
  journal :: "event list"

text \<open>
  Modelled from the spec: \<^verbatim>\<open>d.db.Node.GetAppliedPatches\<close> (package lxd/db, not part
  of the sources at hand), the spec's \<^verbatim>\<open>listApplied() \<rightarrow> set of name\<close>: one read of
  all applied names, or the store's error.
\<close>

definition GetAppliedPatches :: "'w Daemon \<Rightarrow> error + string list" where
  "GetAppliedPatches d =
     (case get_fault d (world d) of
        Some err \<Rightarrow> Inl err
      | None \<Rightarrow> Inr (node_patches d))"

text \<open>
  Modelled from the spec: \<^verbatim>\<open>d.db.Node.MarkPatchAsApplied\<close> (package lxd/db, not part
  of the sources at hand), the spec's \<^verbatim>\<open>markApplied(name) \<rightarrow> error\<close>: it persists the
  applied-record for the name, or fails with the store's error and persists nothing.
\<close>

definition MarkPatchAsApplied :: "string \<Rightarrow> 'w Daemon \<Rightarrow> error option \<times> 'w Daemon" where
  "MarkPatchAsApplied patch d =
     (case mark_fault d patch (world d) of
        Some err \<Rightarrow> (Some err, d\<lparr>journal := journal d @ [MarkApplied patch (Some err)]\<rparr>)
      | None \<Rightarrow>
          (None, d\<lparr>node_patches := node_patches d @ [patch],
                   journal := journal d @ [MarkApplied patch None]\<rparr>))"

text \<open>
  Modelled from the spec: \<^verbatim>\<open>shared.ValueInSlice\<close> (package shared, not part of the
  sources at hand), the membership test behind "its name is already in the applied set".
\<close>

fun ValueInSlice :: "'a \<Rightarrow> 'a list \<Rightarrow> bool" where
  "ValueInSlice key [] = False"
| "ValueInSlice key (entry # list) = (if entry = key then True else ValueInSlice key list)"

subsection \<open>Patches\<close>

text \<open>
  \<^verbatim>\<open>type patch struct { name string; stage patchStage; run func(name string, d *Daemon) error }\<close>.
  A body receives the patch name and the daemon; it returns an error or nil and leaves
  the world changed.
\<close>

record 'w patch =
  name :: string
  stage :: patchStage
  run :: "string \<Rightarrow> 'w \<Rightarrow> error option \<times> 'w"

text \<open>
  \<^verbatim>\<open>func (p *patch) apply(d *Daemon) error\<close>, with the rendering \<open>q\<close> of
  \<^verbatim>\<open>%q\<close>: log the name, run the body, return its
  error wrapped; otherwise mark the patch as applied, return the store's error wrapped;
  otherwise nil. The journal takes the log line and the return of the body here, and
  the store call inside \<open>MarkPatchAsApplied\<close>.
\<close>

definition patch_apply :: "(string \<Rightarrow> string) \<Rightarrow> 'w patch \<Rightarrow> 'w Daemon \<Rightarrow> error option \<times> 'w Daemon" where
  "patch_apply q p d =
     (let d1 = d\<lparr>journal := journal d @ [Applying (name p)]\<rparr> in
      case run p (name p) (world d1) of (err, w) \<Rightarrow>
        let d2 = d1\<lparr>world := w, journal := journal d1 @ [BodyReturned (name p) err]\<rparr> in
        (case err of
           Some e \<Rightarrow> (Some (Errorf_w (''Failed applying patch '' @ q (name p) @ '': '') e), d2)
         | None \<Rightarrow>
            (case MarkPatchAsApplied (name p) d2 of
               (Some e, d3) \<Rightarrow>
                 (Some (Errorf_w (''Failed marking patch applied '' @ q (name p) @ '': '') e), d3)
             | (None, d3) \<Rightarrow> (None, d3))))"

text \<open>
  \<^verbatim>\<open>func patchesGetNames() []string\<close>, over the registry \<open>patches\<close> (a package
  variable in the source): a slice of \<open>len(patches)\<close> empty strings, then the loop that
  stores the name of each patch with a stage at the patch's own index.
\<close>

fun patchesGetNames_loop :: "nat \<Rightarrow> 'w patch list \<Rightarrow> string list \<Rightarrow> string list" where
  "patchesGetNames_loop i [] names = names"
| "patchesGetNames_loop i (patch # rest) names =
     (if stage patch = patchNoStageSet then patchesGetNames_loop (Suc i) rest names
      else patchesGetNames_loop (Suc i) rest (names[i := name patch]))"

definition patchesGetNames :: "'w patch list \<Rightarrow> string list" where
  "patchesGetNames patches = patchesGetNames_loop 0 patches (replicate (length patches) [])"

text \<open>
  \<^verbatim>\<open>func patchesApply(d *Daemon, stage patchStage) error\<close>, over the registry
  \<open>patches\<close> and with the rendering \<open>q\<close> of \<^verbatim>\<open>%q\<close>. The loop body tests the
  patch's stage against \<open>patchNoStageSet\<close> and the patch's name against the names
  read at the start; the parameter \<open>stage\<close> (here \<open>stage'\<close>, as \<open>stage\<close> is the
  field) is not read.
\<close>

fun patchesApply_loop ::
  "(string \<Rightarrow> string) \<Rightarrow> 'w patch list \<Rightarrow> string list \<Rightarrow> 'w Daemon \<Rightarrow> error option \<times> 'w Daemon" where
  "patchesApply_loop q [] appliedPatches d = (None, d)"
| "patchesApply_loop q (patch # rest) appliedPatches d =
     (if stage patch = patchNoStageSet
        then (Some (ErrorString (''Patch '' @ q (name patch) @ '' has no stage set: ''
                                  @ fmt_d (stage patch))), d)
      else if ValueInSlice (name patch) appliedPatches
        then patchesApply_loop q rest appliedPatches d
      else (case patch_apply q patch d of
              (Some err, d') \<Rightarrow> (Some err, d')
            | (None, d') \<Rightarrow> patchesApply_loop q rest appliedPatches d'))"

definition patchesApply ::
  "(string \<Rightarrow> string) \<Rightarrow> 'w patch list \<Rightarrow> 'w Daemon \<Rightarrow> patchStage \<Rightarrow> error option \<times> 'w Daemon" where
  "patchesApply q patches d stage' =
     (case GetAppliedPatches d of
        Inl err \<Rightarrow> (Some err, d)
      | Inr appliedPatches \<Rightarrow> patchesApply_loop q patches appliedPatches d)"

subsection \<open>The registry\<close>

text \<open>
  The bodies that the registry names are Go functions of the daemon (storage, network
  and database actions); the engine only calls them. They are identified here by the
  name of the function, and \<open>patches\<close> takes their behaviour as a parameter.
\<close>

datatype network_patch =
    patchNetworkClearBridgeVolatileHwaddr
  | patchNetworkOVNEnableNAT
  | patchNetworkOVNRemoveRoutes
  | patchNetworkFANEnableNAT
  | patchNetworkACLRemoveDefaults

datatype patch_body =
    patchGenericStorage
  | patchClusteringDropDatabaseRole
  | patchGenericNetwork network_patch
  | patchMoveBackupsInstances
  | patchThinpoolTypoFix
  | patchVMRenameUUIDKey
  | patchDBNodesAutoInc
  | patchClusteringServerCertTrust
  | patchRemoveWarningsWithEmptyNode
  | patchDnsmasqEntriesIncludeDeviceName
  | patchStorageRenameCustomISOBlockVolumes
  | patchZfsSetContentTypeUserProperty
  | patchStorageZfsUnsetInvalidBlockSettings
  | patchStorageZfsUnsetInvalidBlockSettingsV2
  | patchStorageUnsetInvalidBlockSettings
  | patchRemoveCandidRBACConfigKeys
  | patchStorageSetVolumeUUID

text \<open>\<^verbatim>\<open>var patches = []patch{ ... }\<close>, entry by entry.\<close>

definition patches ::
  "(patch_body \<Rightarrow> string \<Rightarrow> 'w \<Rightarrow> error option \<times> 'w) \<Rightarrow> 'w patch list" where
  "patches body =
    [\<lparr>name = ''storage_lvm_skipactivation'', stage = patchPostDaemonStorage,
      run = body patchGenericStorage\<rparr>,
     \<lparr>name = ''clustering_drop_database_role'', stage = patchPostDaemonStorage,
      run = body patchClusteringDropDatabaseRole\<rparr>,
     \<lparr>name = ''network_clear_bridge_volatile_hwaddr'', stage = patchPostDaemonStorage,
      run = body (patchGenericNetwork patchNetworkClearBridgeVolatileHwaddr)\<rparr>,
     \<lparr>name = ''move_backups_instances'', stage = patchPostDaemonStorage,
      run = body patchMoveBackupsInstances\<rparr>,
     \<lparr>name = ''network_ovn_enable_nat'', stage = patchPostDaemonStorage,
      run = body (patchGenericNetwork patchNetworkOVNEnableNAT)\<rparr>,
     \<lparr>name = ''network_ovn_remove_routes'', stage = patchPostDaemonStorage,
      run = body (patchGenericNetwork patchNetworkOVNRemoveRoutes)\<rparr>,
     \<lparr>name = ''network_fan_enable_nat'', stage = patchPostDaemonStorage,
      run = body (patchGenericNetwork patchNetworkFANEnableNAT)\<rparr>,
     \<lparr>name = ''thinpool_typo_fix'', stage = patchPostDaemonStorage,
      run = body patchThinpoolTypoFix\<rparr>,
     \<lparr>name = ''vm_rename_uuid_key'', stage = patchPostDaemonStorage,
      run = body patchVMRenameUUIDKey\<rparr>,
     \<lparr>name = ''db_nodes_autoinc'', stage = patchPreDaemonStorage,
      run = body patchDBNodesAutoInc\<rparr>,
     \<lparr>name = ''network_acl_remove_defaults'', stage = patchPostDaemonStorage,
      run = body (patchGenericNetwork patchNetworkACLRemoveDefaults)\<rparr>,
     \<lparr>name = ''clustering_server_cert_trust'', stage = patchPreDaemonStorage,
      run = body patchClusteringServerCertTrust\<rparr>,
     \<lparr>name = ''warnings_remove_empty_node'', stage = patchPostDaemonStorage,
      run = body patchRemoveWarningsWithEmptyNode\<rparr>,
     \<lparr>name = ''dnsmasq_entries_include_device_name'', stage = patchPostDaemonStorage,
      run = body patchDnsmasqEntriesIncludeDeviceName\<rparr>,
     \<lparr>name = ''storage_missing_snapshot_records'', stage = patchPostDaemonStorage,
      run = body patchGenericStorage\<rparr>,
     \<lparr>name = ''storage_delete_old_snapshot_records'', stage = patchPostDaemonStorage,
      run = body patchGenericStorage\<rparr>,
     \<lparr>name = ''storage_zfs_drop_block_volume_filesystem_extension'',
      stage = patchPostDaemonStorage, run = body patchGenericStorage\<rparr>,
     \<lparr>name = ''storage_prefix_bucket_names_with_project'', stage = patchPostDaemonStorage,
      run = body patchGenericStorage\<rparr>,
     \<lparr>name = ''storage_move_custom_iso_block_volumes'', stage = patchPostDaemonStorage,
      run = body patchStorageRenameCustomISOBlockVolumes\<rparr>,
     \<lparr>name = ''zfs_set_content_type_user_property'', stage = patchPostDaemonStorage,
      run = body patchZfsSetContentTypeUserProperty\<rparr>,
     \<lparr>name = ''storage_zfs_unset_invalid_block_settings'', stage = patchPostDaemonStorage,
      run = body patchStorageZfsUnsetInvalidBlockSettings\<rparr>,
     \<lparr>name = ''storage_zfs_unset_invalid_block_settings_v2'', stage = patchPostDaemonStorage,
      run = body patchStorageZfsUnsetInvalidBlockSettingsV2\<rparr>,
     \<lparr>name = ''storage_unset_invalid_block_settings'', stage = patchPostDaemonStorage,
      run = body patchStorageUnsetInvalidBlockSettings\<rparr>,
     \<lparr>name = ''candid_rbac_remove_config_keys'', stage = patchPreDaemonStorage,
      run = body patchRemoveCandidRBACConfigKeys\<rparr>,
     \<lparr>name = ''storage_set_volume_uuid'', stage = patchPostDaemonStorage,
      run = body patchStorageSetVolumeUUID\<rparr>]"

subsection \<open>Reading the journal\<close>

text \<open>The events that a run from \<open>d\<close> to \<open>d'\<close> has added to the journal.\<close>

definition events_since :: "'w Daemon \<Rightarrow> 'w Daemon \<Rightarrow> event list" where
  "events_since d d' = drop (length (journal d)) (journal d')"

text \<open>
  A journal is well sequenced when it is a sequence of blocks, one per executed patch:
  the announcement, the return of the body of the same patch and, only when the body
  returned no error, the write of the applied-record for the same name. A block whose
  body or whose write failed is the last one; after a successful write the next block
  may start.
\<close>

fun well_sequenced :: "event list \<Rightarrow> bool" where
  "well_sequenced [] = True"
| "well_sequenced (Applying n # BodyReturned n1 (Some e) # rest) = (n1 = n \<and> rest = [])"
| "well_sequenced (Applying n # BodyReturned n1 None # MarkApplied n2 (Some e) # rest) =
     (n1 = n \<and> n2 = n \<and> rest = [])"
| "well_sequenced (Applying n # BodyReturned n1 None # MarkApplied n2 None # rest) =
     (n1 = n \<and> n2 = n \<and> well_sequenced rest)"
| "well_sequenced _ = False"

text \<open>The names of the patches whose body was started.\<close>

fun applying_names :: "event list \<Rightarrow> string list" where
  "applying_names [] = []"
| "applying_names (Applying n # evs) = n # applying_names evs"
| "applying_names (_ # evs) = applying_names evs"

text \<open>The names for which a write of the applied-record was attempted.\<close>

fun mark_names :: "event list \<Rightarrow> string list" where
  "mark_names [] = []"
| "mark_names (MarkApplied n r # evs) = n # mark_names evs"
| "mark_names (_ # evs) = mark_names evs"

text \<open>The names for which the write of the applied-record succeeded.\<close>

fun marked_ok :: "event list \<Rightarrow> string list" where
  "marked_ok [] = []"
| "marked_ok (MarkApplied n None # evs) = n # marked_ok evs"
| "marked_ok (_ # evs) = marked_ok evs"

subsection \<open>Concrete daemons and bodies\<close>

text \<open>
  A daemon with an empty table of applied patches and a healthy node database; its
  world counts the bodies that have run.
\<close>

definition daemon0 :: "nat Daemon" where
  "daemon0 = \<lparr>node_patches = [], get_fault = (\<lambda>w. None), mark_fault = (\<lambda>n w. None),
              world = 0, journal = []\<rparr>"

text \<open>The same daemon with a node database that refuses every insert.\<close>

definition daemon_ro :: "nat Daemon" where
  "daemon_ro = \<lparr>node_patches = [], get_fault = (\<lambda>w. None),
                mark_fault = (\<lambda>n w. Some (ErrorString ''database is locked'')),
                world = 0, journal = []\<rparr>"

definition body_ok :: "string \<Rightarrow> nat \<Rightarrow> error option \<times> nat" where
  "body_ok n w = (None, Suc w)"

definition body_boom :: "string \<Rightarrow> nat \<Rightarrow> error option \<times> nat" where
  "body_boom n w = (Some (ErrorString ''boom''), Suc w)"

section \<open>Auxiliary facts\<close>

lemma fmt_d_0: "fmt_d 0 = ''0''"
  by code_simp

lemma ValueInSlice_iff: "ValueInSlice k xs \<longleftrightarrow> k \<in> set xs"
  by (induction xs) auto

subsection \<open>The three ways \<open>patch_apply\<close> can go\<close>

lemma patch_apply_body_fail:
  assumes "run p (name p) (world d) = (Some e, w)"
  shows "patch_apply q p d =
    (Some (Errorf_w (''Failed applying patch '' @ q (name p) @ '': '') e),
     d\<lparr>world := w, journal := journal d @ [Applying (name p), BodyReturned (name p) (Some e)]\<rparr>)"
  using assms by (simp add: patch_apply_def)

lemma patch_apply_mark_fail:
  assumes "run p (name p) (world d) = (None, w)" and "mark_fault d (name p) w = Some e"
  shows "patch_apply q p d =
    (Some (Errorf_w (''Failed marking patch applied '' @ q (name p) @ '': '') e),
     d\<lparr>world := w,
       journal := journal d @ [Applying (name p), BodyReturned (name p) None,
                               MarkApplied (name p) (Some e)]\<rparr>)"
  using assms by (simp add: patch_apply_def MarkPatchAsApplied_def)

lemma patch_apply_ok:
  assumes "run p (name p) (world d) = (None, w)" and "mark_fault d (name p) w = None"
  shows "patch_apply q p d =
    (None,
     d\<lparr>node_patches := node_patches d @ [name p], world := w,
       journal := journal d @ [Applying (name p), BodyReturned (name p) None,
                               MarkApplied (name p) None]\<rparr>)"
  using assms by (simp add: patch_apply_def MarkPatchAsApplied_def)

lemma patch_apply_cases:
  obtains (body_fail) e w where "run p (name p) (world d) = (Some e, w)"
  | (mark_fail) e w where "run p (name p) (world d) = (None, w)" "mark_fault d (name p) w = Some e"
  | (ok) w where "run p (name p) (world d) = (None, w)" "mark_fault d (name p) w = None"
  by (cases "run p (name p) (world d)"; cases "fst (run p (name p) (world d))";
      cases "mark_fault d (name p) (snd (run p (name p) (world d)))") auto

subsection \<open>The loop\<close>

lemma patchesApply_loop_append:
  "patchesApply_loop q (pre @ rest) ap d =
     (case patchesApply_loop q pre ap d of
        (Some e, d') \<Rightarrow> (Some e, d')
      | (None, d') \<Rightarrow> patchesApply_loop q rest ap d')"
  by (induction pre arbitrary: d) (auto split: prod.splits option.splits)

lemma loop_journal:
  assumes "patchesApply_loop q ps ap d = (r, d')"
  shows "\<exists>evs. journal d' = journal d @ evs \<and> well_sequenced evs
           \<and> node_patches d' = node_patches d @ marked_ok evs
           \<and> get_fault d' = get_fault d \<and> mark_fault d' = mark_fault d
           \<and> (\<exists>zs. filter (\<lambda>n. \<not> ValueInSlice n ap) (map name ps) = applying_names evs @ zs)
           \<and> (r = None \<longrightarrow> mark_names evs = applying_names evs
                \<and> marked_ok evs = applying_names evs
                \<and> applying_names evs = filter (\<lambda>n. \<not> ValueInSlice n ap) (map name ps))"
  using assms
proof (induction ps arbitrary: d)
  case Nil
  then show ?case by simp
next
  case (Cons p ps)
  show ?case
  proof (cases "stage p = patchNoStageSet")
    case True
    with Cons.prems show ?thesis by auto
  next
    case stage_set: False
    show ?thesis
    proof (cases "ValueInSlice (name p) ap")
      case True
      with stage_set Cons.prems have "patchesApply_loop q ps ap d = (r, d')" by simp
      from Cons.IH[OF this] True show ?thesis by simp
    next
      case pending: False
      show ?thesis
      proof (cases p d rule: patch_apply_cases)
        case (body_fail e w)
        from patch_apply_body_fail[OF body_fail] stage_set pending Cons.prems
        show ?thesis by auto
      next
        case (mark_fail e w)
        from patch_apply_mark_fail[OF mark_fail] stage_set pending Cons.prems
        show ?thesis by auto
      next
        case (ok w)
        let ?d1 = "d\<lparr>node_patches := node_patches d @ [name p], world := w,
             journal := journal d @ [Applying (name p), BodyReturned (name p) None,
                               MarkApplied (name p) None]\<rparr>"
        from patch_apply_ok[OF ok] stage_set pending Cons.prems
        have "patchesApply_loop q ps ap ?d1 = (r, d')" by simp
        from Cons.IH[OF this] obtain evs where
          evs: "journal d' = journal ?d1 @ evs" "well_sequenced evs"
           "node_patches d' = node_patches ?d1 @ marked_ok evs"
           "get_fault d' = get_fault ?d1" "mark_fault d' = mark_fault ?d1"
           "\<exists>zs. filter (\<lambda>n. \<not> ValueInSlice n ap) (map name ps) = applying_names evs @ zs"
           "r = None \<longrightarrow> mark_names evs = applying_names evs
                \<and> marked_ok evs = applying_names evs
                \<and> applying_names evs = filter (\<lambda>n. \<not> ValueInSlice n ap) (map name ps)"
          by blast
        let ?evs = "[Applying (name p), BodyReturned (name p) None, MarkApplied (name p) None] @ evs"
        have "journal d' = journal d @ ?evs" using evs(1) by simp
        moreover have "well_sequenced ?evs" using evs(2) by simp
        moreover have "node_patches d' = node_patches d @ marked_ok ?evs" using evs(3) by simp
        moreover have "get_fault d' = get_fault d" "mark_fault d' = mark_fault d"
          using evs(4,5) by simp_all
        moreover have "\<exists>zs. filter (\<lambda>n. \<not> ValueInSlice n ap) (map name (p # ps))
                             = applying_names ?evs @ zs"
          using evs(6) pending by simp
        moreover have "r = None \<longrightarrow> mark_names ?evs = applying_names ?evs
                \<and> marked_ok ?evs = applying_names ?evs
                \<and> applying_names ?evs = filter (\<lambda>n. \<not> ValueInSlice n ap) (map name (p # ps))"
          using evs(7) pending by simp
        ultimately show ?thesis by blast
      qed
    qed
  qed
qed

subsection \<open>The listing of names\<close>

lemma patchesGetNames_loop_eq:
  "length pre = i \<Longrightarrow>
   patchesGetNames_loop i ps (pre @ replicate (length ps) []) =
     pre @ map (\<lambda>p. if stage p = patchNoStageSet then [] else name p) ps"
proof (induction ps arbitrary: i pre)
  case Nil
  then show ?case by simp
next
  case (Cons p ps)
  have unset: "pre @ [] # replicate (length ps) [] = (pre @ [[]]) @ replicate (length ps) []"
    by simp
  have upd: "(pre @ [] # replicate (length ps) [])[i := name p]
               = (pre @ [name p]) @ replicate (length ps) []"
    using Cons.prems by (auto simp: list_update_append)
  show ?case
  proof (cases "stage p = patchNoStageSet")
    case True
    then show ?thesis
      using Cons.IH[of "pre @ [[]]" "Suc i"] Cons.prems by (simp del: append_assoc add: unset)
  next
    case False
    then show ?thesis
      using Cons.IH[of "pre @ [name p]" "Suc i"] Cons.prems by (simp del: append_assoc add: upd)
  qed
qed

text \<open>
  What \<open>patchesGetNames\<close> returns, for every registry: one element per patch, the
  empty string for a patch without a stage and the name for every other patch.
\<close>

lemma patchesGetNames_eq:
  "patchesGetNames ps = map (\<lambda>p. if stage p = patchNoStageSet then [] else name p) ps"
  using patchesGetNames_loop_eq[of "[]" 0 ps] by (simp add: patchesGetNames_def)

lemmas run_defs =
  daemon0_def daemon_ro_def body_ok_def body_boom_def
  patchNoStageSet_def patchPreDaemonStorage_def patchPostDaemonStorage_def patchPostNetworks_def
  patchesApply_def GetAppliedPatches_def patch_apply_def MarkPatchAsApplied_def Errorf_w_def
  quote_ascii_def quote_char_def events_since_def

subsection \<open>Runs of \<open>patchesApply\<close>\<close>

lemma patchesApply_Inl:
  "GetAppliedPatches d = Inl err \<Longrightarrow> patchesApply q ps d st = (Some err, d)"
  by (simp add: patchesApply_def)

lemma GetAppliedPatches_Inr: "GetAppliedPatches d = Inr ap \<Longrightarrow> ap = node_patches d"
  by (auto simp: GetAppliedPatches_def split: option.splits)

lemma patchesApply_Inr:
  "GetAppliedPatches d = Inr ap \<Longrightarrow> patchesApply q ps d st = patchesApply_loop q ps (node_patches d) d"
  using GetAppliedPatches_Inr[of d ap] by (simp add: patchesApply_def)

text \<open>The requested stage has no influence on what \<open>patchesApply\<close> does.\<close>

lemma patchesApply_ignores_stage: "patchesApply q ps d s1 = patchesApply q ps d s2"
  by (simp add: patchesApply_def)

lemma patchesApply_NoneD:
  assumes "patchesApply q ps d st = (None, d1)"
  shows "GetAppliedPatches d = Inr (node_patches d)"
    and "patchesApply_loop q ps (node_patches d) d = (None, d1)"
  using assms
  by (auto simp: patchesApply_def GetAppliedPatches_def split: option.splits sum.splits)

lemma events_since_append: "journal d' = journal d @ evs \<Longrightarrow> events_since d d' = evs"
  by (simp add: events_since_def)

lemma patchesApply_loop_reach:
  assumes "patchesApply_loop q pre ap d = (None, d1)"
    and "stage K \<noteq> patchNoStageSet" and "\<not> ValueInSlice (name K) ap"
  shows "patchesApply_loop q (pre @ K # post) ap d =
           (case patch_apply q K d1 of
              (Some err, d') \<Rightarrow> (Some err, d')
            | (None, d') \<Rightarrow> patchesApply_loop q post ap d')"
  using assms by (simp add: patchesApply_loop_append)

lemma loop_None_stages:
  "patchesApply_loop q ps ap d = (None, d') \<Longrightarrow> p \<in> set ps \<Longrightarrow> stage p \<noteq> patchNoStageSet"
  by (induction ps arbitrary: d) (auto split: if_splits prod.splits option.splits)

lemma loop_all_applied:
  "(\<And>p. p \<in> set ps \<Longrightarrow> stage p \<noteq> patchNoStageSet \<and> ValueInSlice (name p) ap)
     \<Longrightarrow> patchesApply_loop q ps ap d = (None, d)"
  by (induction ps) auto

lemma well_sequenced_marks:
  "well_sequenced evs \<Longrightarrow> \<exists>zs. applying_names evs = mark_names evs @ zs"
  by (induction evs rule: well_sequenced.induct) auto

lemma loop_error_cases:
  assumes "patchesApply_loop q ps ap d = (Some err, d')"
  shows "(\<exists>p\<in>set ps. stage p = patchNoStageSet
            \<and> err = ErrorString (''Patch '' @ q (name p) @ '' has no stage set: 0''))
       \<or> (\<exists>p\<in>set ps. \<exists>e. err = Errorf_w (''Failed applying patch '' @ q (name p) @ '': '') e
            \<and> BodyReturned (name p) (Some e) \<in> set (events_since d d'))
       \<or> (\<exists>p\<in>set ps. \<exists>e. err = Errorf_w (''Failed marking patch applied '' @ q (name p) @ '': '') e
            \<and> MarkApplied (name p) (Some e) \<in> set (events_since d d'))"
  using assms
proof (induction ps arbitrary: d)
  case Nil
  then show ?case by simp
next
  case (Cons p ps)
  show ?case
  proof (cases "stage p = patchNoStageSet")
    case True
    with Cons.prems show ?thesis by (auto simp: fmt_d_0 patchNoStageSet_def)
  next
    case stage_set: False
    show ?thesis
    proof (cases "ValueInSlice (name p) ap")
      case True
      with stage_set Cons.prems have "patchesApply_loop q ps ap d = (Some err, d')" by simp
      from Cons.IH[OF this] show ?thesis by auto
    next
      case pending: False
      show ?thesis
      proof (cases p d rule: patch_apply_cases)
        case (body_fail e w)
        from patch_apply_body_fail[OF body_fail] stage_set pending Cons.prems
        show ?thesis by (auto simp: events_since_def)
      next
        case (mark_fail e w)
        from patch_apply_mark_fail[OF mark_fail] stage_set pending Cons.prems
        show ?thesis by (auto simp: events_since_def)
      next
        case (ok w)
        let ?d1 = "d\<lparr>node_patches := node_patches d @ [name p], world := w,
             journal := journal d @ [Applying (name p), BodyReturned (name p) None,
                               MarkApplied (name p) None]\<rparr>"
        from patch_apply_ok[OF ok] stage_set pending Cons.prems
        have run: "patchesApply_loop q ps ap ?d1 = (Some err, d')" by simp
        from loop_journal[OF run] obtain evs where "journal d' = journal ?d1 @ evs" by blast
        then have sub: "set (events_since ?d1 d') \<subseteq> set (events_since d d')"
          by (auto simp: events_since_def)
        from Cons.IH[OF run] sub show ?thesis by (auto 0 3)
      qed
    qed
  qed
qed

lemma patchesApply_reach:
  assumes "patchesApply q pre d st = (None, d1)"
    and "stage K \<noteq> patchNoStageSet" and "\<not> ValueInSlice (name K) (node_patches d)"
  shows "patchesApply q (pre @ K # post) d st =
           (case patch_apply q K d1 of
              (Some err, d') \<Rightarrow> (Some err, d')
            | (None, d') \<Rightarrow> patchesApply_loop q post (node_patches d) d')"
  using patchesApply_NoneD[OF assms(1)] assms(2,3)
  by (simp add: patchesApply_def patchesApply_loop_reach)

lemma patchesApply_prefix_journal:
  assumes "patchesApply q pre d st = (None, d1)"
  shows "node_patches d1 = node_patches d @ applying_names (events_since d d1)"
    and "applying_names (events_since d d1) =
           filter (\<lambda>n. \<not> ValueInSlice n (node_patches d)) (map name pre)"
    and "mark_fault d1 = mark_fault d"
proof -
  from loop_journal[OF patchesApply_NoneD(2)[OF assms]] obtain evs where
    ev: "journal d1 = journal d @ evs" "node_patches d1 = node_patches d @ marked_ok evs"
      "mark_fault d1 = mark_fault d"
      "(None :: error option) = None \<longrightarrow> mark_names evs = applying_names evs
         \<and> marked_ok evs = applying_names evs
         \<and> applying_names evs = filter (\<lambda>n. \<not> ValueInSlice n (node_patches d)) (map name pre)"
    by blast
  from ev(4) have ev': "marked_ok evs = applying_names evs"
      "applying_names evs = filter (\<lambda>n. \<not> ValueInSlice n (node_patches d)) (map name pre)"
    by simp_all
  note evs = ev(1,2) ev'(1) ev(3) ev'(2)
  from evs(1) have "events_since d d1 = evs" by (rule events_since_append)
  with evs show "node_patches d1 = node_patches d @ applying_names (events_since d d1)"
    and "applying_names (events_since d d1) =
           filter (\<lambda>n. \<not> ValueInSlice n (node_patches d)) (map name pre)"
    and "mark_fault d1 = mark_fault d"
    by simp_all
qed

lemma run_journal:
  assumes "patchesApply q ps d st = (r, d')"
  shows "journal d' = journal d @ events_since d d'
       \<and> well_sequenced (events_since d d')
       \<and> node_patches d' = node_patches d @ marked_ok (events_since d d')
       \<and> (distinct (map name ps) \<longrightarrow> distinct (mark_names (events_since d d')))
       \<and> (\<forall>n \<in> set (mark_names (events_since d d')). n \<notin> set (node_patches d))"
proof (cases "GetAppliedPatches d")
  case (Inl err)
  with assms have "d' = d" by (simp add: patchesApply_def)
  then show ?thesis by (simp add: events_since_def)
next
  case (Inr ap)
  with assms have run: "patchesApply_loop q ps (node_patches d) d = (r, d')"
    by (simp add: patchesApply_Inr)
  from loop_journal[OF run] obtain evs zs where
    evs: "journal d' = journal d @ evs" "well_sequenced evs"
      "node_patches d' = node_patches d @ marked_ok evs"
      "filter (\<lambda>n. \<not> ValueInSlice n (node_patches d)) (map name ps) = applying_names evs @ zs"
    by blast
  from evs(1) have since: "events_since d d' = evs" by (rule events_since_append)
  from well_sequenced_marks[OF evs(2)] obtain ys where ys: "applying_names evs = mark_names evs @ ys"
    by blast
  have filt: "filter (\<lambda>n. n \<notin> set (node_patches d)) (map name ps) = mark_names evs @ ys @ zs"
    using evs(4) ys by (simp add: ValueInSlice_iff)
  have "distinct (mark_names evs)" if "distinct (map name ps)"
  proof -
    from that have "distinct (filter (\<lambda>n. n \<notin> set (node_patches d)) (map name ps))"
      by (rule distinct_filter)
    then show ?thesis unfolding filt by simp
  qed
  moreover have "n \<notin> set (node_patches d)" if "n \<in> set (mark_names evs)" for n
  proof -
    from that have "n \<in> set (filter (\<lambda>n. n \<notin> set (node_patches d)) (map name ps))"
      unfolding filt by simp
    then show ?thesis by simp
  qed
  ultimately show ?thesis using evs(1,2,3) since by simp
qed

text \<open>The names of the shipped registry are pairwise different.\<close>

lemma patches_names_distinct: "distinct (map name (patches body))"
  by (simp add: patches_def)

text \<open>On the shipped registry no name is written twice in a run, whatever the bodies do.\<close>

lemma patches_marked_once:
  assumes "patchesApply q (patches body) d st = (r, d')"
  shows "distinct (mark_names (events_since d d'))"
  using run_journal[OF assms] patches_names_distinct by blast

lemma patchesApply_reach_body_fail:
  assumes "patchesApply q pre d st = (None, d1)"
    and "stage K \<noteq> patchNoStageSet" and "\<not> ValueInSlice (name K) (node_patches d)"
    and "run K (name K) (world d1) = (Some e, w)"
  shows "patchesApply q (pre @ K # post) d st =
          (Some (Errorf_w (''Failed applying patch '' @ q (name K) @ '': '') e),
           d1\<lparr>world := w,
              journal := journal d1 @ [Applying (name K), BodyReturned (name K) (Some e)]\<rparr>)"
  by (simp add: patchesApply_reach[OF assms(1,2,3)] patch_apply_body_fail[OF assms(4)])


lemma patches_stages:
  "p \<in> set (patches body) \<Longrightarrow> stage p = patchPreDaemonStorage \<or> stage p = patchPostDaemonStorage"
  unfolding patches_def by auto


section \<open>The claims\<close>

subsection \<open>C1: stage isolation\<close>

text \<open>
  C1 says that \<open>patchesApply\<close> executes only the bodies of patches whose stage equals
  the requested stage, and in particular that no patch tagged post-network-init executes
  when pre-storage-init is requested. The loop of \<open>patchesApply\<close> never compares a
  patch's stage with the requested one. On the registry of a pre-storage patch \<open>q1\<close>
  followed by a post-network patch \<open>q2\<close>, a request for \<open>patchPreDaemonStorage\<close>
  runs the body of \<open>q2\<close> as well and records it as applied.
\<close>

theorem patchesApply_runs_other_stage:
  "patchesApply quote_ascii
     [\<lparr>name = ''q1'', stage = patchPreDaemonStorage, run = body_ok\<rparr>,
      \<lparr>name = ''q2'', stage = patchPostNetworks, run = body_ok\<rparr>]
     daemon0 patchPreDaemonStorage
   = (None,
      \<lparr>node_patches = [''q1'', ''q2''], get_fault = (\<lambda>w. None), mark_fault = (\<lambda>n w. None),
       world = 2,
       journal = [Applying ''q1'', BodyReturned ''q1'' None, MarkApplied ''q1'' None,
                  Applying ''q2'', BodyReturned ''q2'' None, MarkApplied ''q2'' None]\<rparr>)"
  by (simp add: run_defs)

subsection \<open>C2: a patch without a stage\<close>

text \<open>
  C2, as amended: when the registry contains a patch \<open>p\<close> whose stage is unset and the
  runner gets as far as \<open>p\<close> (the applied names load and every patch before \<open>p\<close> is
  skipped or completes, which is what a successful run on the patches before \<open>p\<close>
  says), \<open>patchesApply\<close> returns the configuration error that names \<open>p\<close>, and it ends
  in the state that the patches before \<open>p\<close> left: neither the body of \<open>p\<close> nor the
  body of any patch after \<open>p\<close> is executed.
\<close>

theorem unset_stage_rejected:
  assumes "stage p = patchNoStageSet" and "patchesApply q pre d st = (None, d1)"
  shows "patchesApply q (pre @ p # post) d st =
           (Some (ErrorString (''Patch '' @ q (name p) @ '' has no stage set: 0'')), d1)"
proof -
  from assms(2) obtain ap where ap: "GetAppliedPatches d = Inr ap"
    and pre: "patchesApply_loop q pre ap d = (None, d1)"
    by (auto simp: patchesApply_def split: sum.splits)
  have "patchesApply_loop q (pre @ p # post) ap d = patchesApply_loop q (p # post) ap d1"
    by (simp add: patchesApply_loop_append pre)
  also have "\<dots> = (Some (ErrorString (''Patch '' @ q (name p) @ '' has no stage set: 0'')), d1)"
    using assms(1) by (simp add: fmt_d_0 patchNoStageSet_def)
  finally show ?thesis by (simp add: patchesApply_def ap)
qed

text \<open>
  A run of the amended statement: \<open>p1\<close> is already applied, \<open>p2\<close> has no stage,
  \<open>p3\<close> is pending. Nothing is executed.
\<close>

theorem unset_stage_rejected_witness:
  "stage \<lparr>name = ''p2'', stage = patchNoStageSet, run = body_ok\<rparr> = patchNoStageSet
   \<and> patchesApply quote_ascii [\<lparr>name = ''p1'', stage = patchPreDaemonStorage, run = body_ok\<rparr>]
        (daemon0\<lparr>node_patches := [''p1'']\<rparr>) patchPreDaemonStorage
      = (None, daemon0\<lparr>node_patches := [''p1'']\<rparr>)
   \<and> patchesApply quote_ascii
        ([\<lparr>name = ''p1'', stage = patchPreDaemonStorage, run = body_ok\<rparr>]
         @ \<lparr>name = ''p2'', stage = patchNoStageSet, run = body_ok\<rparr>
         # [\<lparr>name = ''p3'', stage = patchPreDaemonStorage, run = body_ok\<rparr>])
        (daemon0\<lparr>node_patches := [''p1'']\<rparr>) patchPreDaemonStorage
      = (Some (ErrorString ''Patch \"p2\" has no stage set: 0''),
         daemon0\<lparr>node_patches := [''p1'']\<rparr>)"
proof -
  have h1: "stage \<lparr>name = ''p2'', stage = patchNoStageSet, run = body_ok\<rparr> = patchNoStageSet"
    by simp
  have h2: "patchesApply quote_ascii [\<lparr>name = ''p1'', stage = patchPreDaemonStorage, run = body_ok\<rparr>]
        (daemon0\<lparr>node_patches := [''p1'']\<rparr>) patchPreDaemonStorage
      = (None, daemon0\<lparr>node_patches := [''p1'']\<rparr>)"
    by (simp add: run_defs)
  show ?thesis
    using h1 h2
      unset_stage_rejected [OF h1 h2,
        of "[\<lparr>name = ''p3'', stage = patchPreDaemonStorage, run = body_ok\<rparr>]"]
    by (simp add: quote_ascii_def quote_char_def)
qed

text \<open>
  The claim as first stated fails where a pending patch precedes the patch without a
  stage: the body of \<open>p1\<close> has run (the world counts one body, the table holds
  \<open>p1\<close>) when the configuration error for \<open>p2\<close> is returned.
\<close>

theorem unset_stage_after_pending_patch:
  "patchesApply quote_ascii
     [\<lparr>name = ''p1'', stage = patchPreDaemonStorage, run = body_ok\<rparr>,
      \<lparr>name = ''p2'', stage = patchNoStageSet, run = body_ok\<rparr>]
     daemon0 patchPreDaemonStorage
   = (Some (ErrorString ''Patch \"p2\" has no stage set: 0''),
      \<lparr>node_patches = [''p1''], get_fault = (\<lambda>w. None), mark_fault = (\<lambda>n w. None),
       world = 1,
       journal = [Applying ''p1'', BodyReturned ''p1'' None, MarkApplied ''p1'' None]\<rparr>)"
  by (simp add: run_defs fmt_d_0)

subsection \<open>C3: the applied-record is written after success and before the next body\<close>

text \<open>
  C3, as amended: for every run of \<open>patchesApply\<close>, the events that the run adds to
  the journal are well sequenced: the write of the applied-record for a name comes
  directly after the body of that patch has returned without error, never after a body
  that returned an error, and the body of the next patch starts only after that write
  has succeeded. The table grows by exactly the names whose write succeeded. No name is
  written that the table held when the run began. When the names of the registry are
  pairwise different, no name is written twice in a run; the code does not enforce
  that condition, and without it the same name can be written twice.
\<close>

theorem mark_applied_after_success:
  assumes "patchesApply q ps d st = (r, d')"
  shows "journal d' = journal d @ events_since d d'
       \<and> well_sequenced (events_since d d')
       \<and> node_patches d' = node_patches d @ marked_ok (events_since d d')
       \<and> (distinct (map name ps) \<longrightarrow> distinct (mark_names (events_since d d')))
       \<and> (\<forall>n \<in> set (mark_names (events_since d d')). n \<notin> set (node_patches d))"
  using assms by (rule run_journal)

text \<open>A run of two patches, the second of which fails.\<close>

theorem mark_applied_after_success_witness:
  "patchesApply quote_ascii
     [\<lparr>name = ''p1'', stage = patchPreDaemonStorage, run = body_ok\<rparr>,
      \<lparr>name = ''p2'', stage = patchPreDaemonStorage, run = body_boom\<rparr>]
     daemon0 patchPreDaemonStorage
   = (Some (WrapError ''Failed applying patch \"p2\": boom'' (ErrorString ''boom'')),
      \<lparr>node_patches = [''p1''], get_fault = (\<lambda>w. None), mark_fault = (\<lambda>n w. None),
       world = 2,
       journal = [Applying ''p1'', BodyReturned ''p1'' None, MarkApplied ''p1'' None,
                  Applying ''p2'', BodyReturned ''p2'' (Some (ErrorString ''boom''))]\<rparr>)
   \<and> well_sequenced [Applying ''p1'', BodyReturned ''p1'' None, MarkApplied ''p1'' None,
                  Applying ''p2'', BodyReturned ''p2'' (Some (ErrorString ''boom''))]
   \<and> distinct (map name
        [\<lparr>name = ''p1'', stage = patchPreDaemonStorage, run = body_ok\<rparr>,
         \<lparr>name = ''p2'', stage = patchPreDaemonStorage, run = body_boom\<rparr>])
   \<and> distinct (mark_names [Applying ''p1'', BodyReturned ''p1'' None, MarkApplied ''p1'' None,
                  Applying ''p2'', BodyReturned ''p2'' (Some (ErrorString ''boom''))])"
proof -
  have run: "patchesApply quote_ascii
     [\<lparr>name = ''p1'', stage = patchPreDaemonStorage, run = body_ok\<rparr>,
      \<lparr>name = ''p2'', stage = patchPreDaemonStorage, run = body_boom\<rparr>]
     daemon0 patchPreDaemonStorage
   = (Some (WrapError ''Failed applying patch \"p2\": boom'' (ErrorString ''boom'')),
      \<lparr>node_patches = [''p1''], get_fault = (\<lambda>w. None), mark_fault = (\<lambda>n w. None),
       world = 2,
       journal = [Applying ''p1'', BodyReturned ''p1'' None, MarkApplied ''p1'' None,
                  Applying ''p2'', BodyReturned ''p2'' (Some (ErrorString ''boom''))]\<rparr>)"
    by (simp add: run_defs)
  show ?thesis
    using run mark_applied_after_success [OF run]
    by (simp add: events_since_def daemon0_def)
qed


text \<open>
  The claim as first stated has the name marked at most once in a run, for every
  registry. On a registry of two patches named \<open>dup\<close>, both of the requested stage,
  the record for \<open>dup\<close> is written twice in one run.
\<close>

theorem same_name_marked_twice:
  "mark_names (events_since daemon0 (snd (patchesApply quote_ascii
      [\<lparr>name = ''dup'', stage = patchPostDaemonStorage, run = body_ok\<rparr>,
       \<lparr>name = ''dup'', stage = patchPostDaemonStorage, run = body_ok\<rparr>]
      daemon0 patchPostDaemonStorage))) = [''dup'', ''dup'']"
  by (simp add: run_defs)

subsection \<open>C4: fail-fast\<close>

text \<open>
  C4: let \<open>K\<close> be a pending patch of the registry \<open>pre @ K # post\<close> that the runner
  reaches (the patches before \<open>K\<close> are skipped or complete, ending in \<open>d1\<close>) and whose
  body fails with \<open>e\<close>. Then \<open>patchesApply\<close> returns at once with an error: the final
  state is the one the body of \<open>K\<close> left, whatever \<open>post\<close> is, so no patch after
  \<open>K\<close> is executed; and the table still holds every name it held at the start followed
  by the name of every patch executed before \<open>K\<close> in this run.
\<close>

theorem fail_fast:
  assumes "patchesApply q pre d st = (None, d1)"
    and "stage K \<noteq> patchNoStageSet" and "\<not> ValueInSlice (name K) (node_patches d)"
    and "run K (name K) (world d1) = (Some e, w)"
  shows "patchesApply q (pre @ K # post) d st =
          (Some (Errorf_w (''Failed applying patch '' @ q (name K) @ '': '') e),
           d1\<lparr>world := w,
              journal := journal d1 @ [Applying (name K), BodyReturned (name K) (Some e)]\<rparr>)
       \<and> applying_names (events_since d d1) =
           filter (\<lambda>n. \<not> ValueInSlice n (node_patches d)) (map name pre)
       \<and> node_patches (snd (patchesApply q (pre @ K # post) d st)) =
           node_patches d @ applying_names (events_since d d1)"
  using patchesApply_reach_body_fail[OF assms] patchesApply_prefix_journal(1,2)[OF assms(1)]
  by simp

text \<open>A run of three patches, the second of which fails: the third never starts.\<close>

theorem fail_fast_witness:
  "patchesApply quote_ascii [\<lparr>name = ''p1'', stage = patchPreDaemonStorage, run = body_ok\<rparr>]
     daemon0 patchPreDaemonStorage
   = (None,
      \<lparr>node_patches = [''p1''], get_fault = (\<lambda>w. None), mark_fault = (\<lambda>n w. None),
       world = 1,
       journal = [Applying ''p1'', BodyReturned ''p1'' None, MarkApplied ''p1'' None]\<rparr>)
   \<and> patchesApply quote_ascii
       ([\<lparr>name = ''p1'', stage = patchPreDaemonStorage, run = body_ok\<rparr>]
        @ \<lparr>name = ''p2'', stage = patchPreDaemonStorage, run = body_boom\<rparr>
        # [\<lparr>name = ''p3'', stage = patchPreDaemonStorage, run = body_ok\<rparr>])
       daemon0 patchPreDaemonStorage
   = (Some (WrapError ''Failed applying patch \"p2\": boom'' (ErrorString ''boom'')),
      \<lparr>node_patches = [''p1''], get_fault = (\<lambda>w. None), mark_fault = (\<lambda>n w. None),
       world = 2,
       journal = [Applying ''p1'', BodyReturned ''p1'' None, MarkApplied ''p1'' None,
                  Applying ''p2'', BodyReturned ''p2'' (Some (ErrorString ''boom''))]\<rparr>)"
proof -
  have pre: "patchesApply quote_ascii [\<lparr>name = ''p1'', stage = patchPreDaemonStorage, run = body_ok\<rparr>]
     daemon0 patchPreDaemonStorage
   = (None,
      \<lparr>node_patches = [''p1''], get_fault = (\<lambda>w. None), mark_fault = (\<lambda>n w. None),
       world = 1,
       journal = [Applying ''p1'', BodyReturned ''p1'' None, MarkApplied ''p1'' None]\<rparr>)"
    by (simp add: run_defs)
  have set: "stage \<lparr>name = ''p2'', stage = patchPreDaemonStorage, run = body_boom\<rparr> \<noteq> patchNoStageSet"
    by (simp add: run_defs)
  have pending: "\<not> ValueInSlice (name \<lparr>name = ''p2'', stage = patchPreDaemonStorage, run = body_boom\<rparr>)
                    (node_patches daemon0)"
    by (simp add: run_defs)
  have body: "run \<lparr>name = ''p2'', stage = patchPreDaemonStorage, run = body_boom\<rparr>
      (name \<lparr>name = ''p2'', stage = patchPreDaemonStorage, run = body_boom\<rparr>)
      (world \<lparr>node_patches = [''p1''], get_fault = (\<lambda>w. None), mark_fault = (\<lambda>n w. None),
       world = 1,
       journal = [Applying ''p1'', BodyReturned ''p1'' None, MarkApplied ''p1'' None]\<rparr>)
      = (Some (ErrorString ''boom''), 2)"
    by (simp add: run_defs)
  show ?thesis
    using pre
      fail_fast [OF pre set pending body,
        of "[\<lparr>name = ''p3'', stage = patchPreDaemonStorage, run = body_ok\<rparr>]"]
    by (simp add: Errorf_w_def quote_ascii_def quote_char_def)
qed


subsection \<open>C5: idempotency\<close>

text \<open>
  C5: when a call of \<open>patchesApply\<close> succeeds and ends in \<open>d1\<close>, every patch name of the
  registry is in the table of \<open>d1\<close>, and a call that follows immediately, for the same
  stage, leaves \<open>d1\<close> as it is: no body is executed, nothing is journalled, nothing is
  written. Its result is that of the read of the applied names (no error unless the
  store fails to read).
\<close>

theorem idempotent:
  assumes "patchesApply q ps d st = (None, d1)"
  shows "(\<forall>p \<in> set ps. ValueInSlice (name p) (node_patches d1))
       \<and> patchesApply q ps d1 st = (get_fault d1 (world d1), d1)"
proof -
  note run = patchesApply_NoneD(2)[OF assms]
  from patchesApply_prefix_journal(1,2)[OF assms]
  have tbl: "node_patches d1 =
      node_patches d @ filter (\<lambda>n. \<not> ValueInSlice n (node_patches d)) (map name ps)"
    by simp
  have all: "ValueInSlice (name p) (node_patches d1)" if "p \<in> set ps" for p
    using that unfolding tbl by (auto simp: ValueInSlice_iff)
  have "patchesApply_loop q ps (node_patches d1) d1 = (None, d1)"
    using loop_None_stages[OF run] all by (intro loop_all_applied) simp
  then have "patchesApply q ps d1 st = (get_fault d1 (world d1), d1)"
    by (simp add: patchesApply_def GetAppliedPatches_def split: option.splits)
  with all show ?thesis by simp
qed

text \<open>Two patches applied by a first call; the second call changes nothing.\<close>

theorem idempotent_witness:
  "patchesApply quote_ascii
     [\<lparr>name = ''p1'', stage = patchPreDaemonStorage, run = body_ok\<rparr>,
      \<lparr>name = ''p2'', stage = patchPreDaemonStorage, run = body_ok\<rparr>]
     daemon0 patchPreDaemonStorage
   = (None,
      \<lparr>node_patches = [''p1'', ''p2''], get_fault = (\<lambda>w. None), mark_fault = (\<lambda>n w. None),
       world = 2,
       journal = [Applying ''p1'', BodyReturned ''p1'' None, MarkApplied ''p1'' None,
                  Applying ''p2'', BodyReturned ''p2'' None, MarkApplied ''p2'' None]\<rparr>)
   \<and> patchesApply quote_ascii
     [\<lparr>name = ''p1'', stage = patchPreDaemonStorage, run = body_ok\<rparr>,
      \<lparr>name = ''p2'', stage = patchPreDaemonStorage, run = body_ok\<rparr>]
     \<lparr>node_patches = [''p1'', ''p2''], get_fault = (\<lambda>w. None), mark_fault = (\<lambda>n w. None),
       world = 2,
       journal = [Applying ''p1'', BodyReturned ''p1'' None, MarkApplied ''p1'' None,
                  Applying ''p2'', BodyReturned ''p2'' None, MarkApplied ''p2'' None]\<rparr>
     patchPreDaemonStorage
   = (None,
      \<lparr>node_patches = [''p1'', ''p2''], get_fault = (\<lambda>w. None), mark_fault = (\<lambda>n w. None),
       world = 2,
       journal = [Applying ''p1'', BodyReturned ''p1'' None, MarkApplied ''p1'' None,
                  Applying ''p2'', BodyReturned ''p2'' None, MarkApplied ''p2'' None]\<rparr>)"
proof -
  have first: "patchesApply quote_ascii
     [\<lparr>name = ''p1'', stage = patchPreDaemonStorage, run = body_ok\<rparr>,
      \<lparr>name = ''p2'', stage = patchPreDaemonStorage, run = body_ok\<rparr>]
     daemon0 patchPreDaemonStorage
   = (None,
      \<lparr>node_patches = [''p1'', ''p2''], get_fault = (\<lambda>w. None), mark_fault = (\<lambda>n w. None),
       world = 2,
       journal = [Applying ''p1'', BodyReturned ''p1'' None, MarkApplied ''p1'' None,
                  Applying ''p2'', BodyReturned ''p2'' None, MarkApplied ''p2'' None]\<rparr>)"
    by (simp add: run_defs)
  show ?thesis
    using first idempotent [OF first] by simp
qed

subsection \<open>C6: a failed write of the applied-record\<close>



subsection \<open>C7: the error of a failed body\<close>

text \<open>
  C7, as amended: let \<open>K\<close> be a pending patch that the runner reaches and whose body
  fails with \<open>e\<close>. The error that \<open>patchesApply\<close> returns wraps \<open>e\<close> with the name of
  the patch: its message is "Failed applying patch", the quoted name, a colon and the
  message of \<open>e\<close>, and unwrapping it gives \<open>e\<close> itself, unmodified. The stage of the
  patch is no part of it.
\<close>

theorem body_error_wrapped_with_name:
  assumes "patchesApply q pre d st = (None, d1)"
    and "stage K \<noteq> patchNoStageSet" and "\<not> ValueInSlice (name K) (node_patches d)"
    and "run K (name K) (world d1) = (Some e, w)"
  shows "fst (patchesApply q (pre @ K # post) d st) =
           Some (WrapError (''Failed applying patch '' @ q (name K) @ '': '' @ Error e) e)
       \<and> Unwrap (WrapError (''Failed applying patch '' @ q (name K) @ '': '' @ Error e) e)
           = Some e"
  using patchesApply_reach_body_fail[OF assms] by (simp add: Errorf_w_def)

text \<open>The second of three patches fails with the error \<open>boom\<close>.\<close>

theorem body_error_wrapped_with_name_witness:
  "patchesApply quote_ascii [\<lparr>name = ''p1'', stage = patchPostDaemonStorage, run = body_ok\<rparr>]
     daemon0 patchPostDaemonStorage
   = (None,
      \<lparr>node_patches = [''p1''], get_fault = (\<lambda>w. None), mark_fault = (\<lambda>n w. None),
       world = 1,
       journal = [Applying ''p1'', BodyReturned ''p1'' None, MarkApplied ''p1'' None]\<rparr>)
   \<and> fst (patchesApply quote_ascii
       ([\<lparr>name = ''p1'', stage = patchPostDaemonStorage, run = body_ok\<rparr>]
        @ \<lparr>name = ''p2'', stage = patchPostDaemonStorage, run = body_boom\<rparr>
        # [\<lparr>name = ''p3'', stage = patchPostDaemonStorage, run = body_ok\<rparr>])
       daemon0 patchPostDaemonStorage)
   = Some (WrapError ''Failed applying patch \"p2\": boom'' (ErrorString ''boom''))
   \<and> Unwrap (WrapError ''Failed applying patch \"p2\": boom'' (ErrorString ''boom''))
   = Some (ErrorString ''boom'')"
proof -
  have pre: "patchesApply quote_ascii [\<lparr>name = ''p1'', stage = patchPostDaemonStorage, run = body_ok\<rparr>]
     daemon0 patchPostDaemonStorage
   = (None,
      \<lparr>node_patches = [''p1''], get_fault = (\<lambda>w. None), mark_fault = (\<lambda>n w. None),
       world = 1,
       journal = [Applying ''p1'', BodyReturned ''p1'' None, MarkApplied ''p1'' None]\<rparr>)"
    by (simp add: run_defs)
  have set: "stage \<lparr>name = ''p2'', stage = patchPostDaemonStorage, run = body_boom\<rparr> \<noteq> patchNoStageSet"
    by (simp add: run_defs)
  have pending: "\<not> ValueInSlice (name \<lparr>name = ''p2'', stage = patchPostDaemonStorage, run = body_boom\<rparr>)
                    (node_patches daemon0)"
    by (simp add: run_defs)
  have body: "run \<lparr>name = ''p2'', stage = patchPostDaemonStorage, run = body_boom\<rparr>
      (name \<lparr>name = ''p2'', stage = patchPostDaemonStorage, run = body_boom\<rparr>)
      (world \<lparr>node_patches = [''p1''], get_fault = (\<lambda>w. None), mark_fault = (\<lambda>n w. None),
       world = 1,
       journal = [Applying ''p1'', BodyReturned ''p1'' None, MarkApplied ''p1'' None]\<rparr>)
      = (Some (ErrorString ''boom''), 2)"
    by (simp add: run_defs)
  show ?thesis
    using pre
      body_error_wrapped_with_name [OF pre set pending body,
        of "[\<lparr>name = ''p3'', stage = patchPostDaemonStorage, run = body_ok\<rparr>]"]
    by (simp add: quote_ascii_def quote_char_def)
qed

text \<open>
  The claim as first stated has the stage in the wrapper. The same failing patch tagged
  pre-storage and tagged post-network gives one and the same error, which reads
  \<open>Failed applying patch "p": boom\<close>: it carries the name and the body's error only.
\<close>

theorem body_error_without_stage:
  "fst (patchesApply quote_ascii [\<lparr>name = ''p'', stage = patchPreDaemonStorage, run = body_boom\<rparr>]
          daemon0 patchPreDaemonStorage)
     = Some (WrapError ''Failed applying patch \"p\": boom'' (ErrorString ''boom''))
   \<and> fst (patchesApply quote_ascii [\<lparr>name = ''p'', stage = patchPostNetworks, run = body_boom\<rparr>]
          daemon0 patchPostNetworks)
     = Some (WrapError ''Failed applying patch \"p\": boom'' (ErrorString ''boom''))"
  by (simp add: run_defs)

subsection \<open>C8: the listing of patch names\<close>

text \<open>
  C8 says that a patch without a stage contributes no element to the result of
  \<open>patchesGetNames\<close>, so that the result is as long as the number of patches with a
  stage. The function allocates one slot per patch and leaves the slot of a patch
  without a stage empty: on a registry of a patch \<open>a\<close> without a stage and a patch
  \<open>b\<close> with one it returns two elements, the empty string and \<open>b\<close>.
\<close>

theorem patchesGetNames_keeps_empty_slot:
  "patchesGetNames
     [\<lparr>name = ''a'', stage = patchNoStageSet, run = body_ok\<rparr>,
      \<lparr>name = ''b'', stage = patchPreDaemonStorage, run = body_ok\<rparr>] = ['''', ''b'']"
  by (simp add: patchesGetNames_def run_defs)

subsection \<open>C9: duplicate names\<close>




subsection \<open>C10: the shipped registry\<close>

text \<open>
  C10: every patch of the registry \<open>patches\<close>, whatever its bodies do, has the stage
  \<open>patchPreDaemonStorage\<close> or \<open>patchPostDaemonStorage\<close>, hence a stage other than
  \<open>patchNoStageSet\<close>. So on this registry an error of \<open>patchesApply\<close> is the error of
  the read of the applied names, or the wrapped error of a body that failed in this
  run, or the wrapped error of a write of an applied-record that failed in this run;
  the branch for a patch without a stage is not taken.
\<close>

theorem shipped_registry_has_stages:
  "(\<forall>p \<in> set (patches body).
       stage p = patchPreDaemonStorage \<or> stage p = patchPostDaemonStorage)
   \<and> (\<forall>p \<in> set (patches body). stage p \<noteq> patchNoStageSet)
   \<and> (patchesApply q (patches body) d st = (Some err, d') \<longrightarrow>
         GetAppliedPatches d = Inl err
       \<or> (\<exists>p \<in> set (patches body). \<exists>e.
            err = Errorf_w (''Failed applying patch '' @ q (name p) @ '': '') e
            \<and> BodyReturned (name p) (Some e) \<in> set (events_since d d'))
       \<or> (\<exists>p \<in> set (patches body). \<exists>e.
            err = Errorf_w (''Failed marking patch applied '' @ q (name p) @ '': '') e
            \<and> MarkApplied (name p) (Some e) \<in> set (events_since d d')))"
proof -
  have set: "stage p \<noteq> patchNoStageSet" if "p \<in> set (patches body)" for p
    using patches_stages[OF that]
    by (auto simp: patchNoStageSet_def patchPreDaemonStorage_def patchPostDaemonStorage_def)
  have "GetAppliedPatches d = Inl err
       \<or> (\<exists>p \<in> set (patches body). \<exists>e.
            err = Errorf_w (''Failed applying patch '' @ q (name p) @ '': '') e
            \<and> BodyReturned (name p) (Some e) \<in> set (events_since d d'))
       \<or> (\<exists>p \<in> set (patches body). \<exists>e.
            err = Errorf_w (''Failed marking patch applied '' @ q (name p) @ '': '') e
            \<and> MarkApplied (name p) (Some e) \<in> set (events_since d d'))"
    if run: "patchesApply q (patches body) d st = (Some err, d')"
  proof (cases "GetAppliedPatches d")
    case (Inl e)
    with run show ?thesis by (simp add: patchesApply_def)
  next
    case (Inr ap)
    with run have "patchesApply_loop q (patches body) ap d = (Some err, d')"
      by (simp add: patchesApply_def)
    from loop_error_cases[OF this] set show ?thesis by blast
  qed
  with set patches_stages show ?thesis by blast
qed

text \<open>The shipped registry with bodies that all fail: the first patch stops the run.\<close>

theorem shipped_registry_has_stages_witness:
  "patchesApply quote_ascii (patches (\<lambda>b. body_boom)) daemon0 patchPostDaemonStorage
   = (Some (WrapError ''Failed applying patch \"storage_lvm_skipactivation\": boom''
              (ErrorString ''boom'')),
      \<lparr>node_patches = [], get_fault = (\<lambda>w. None), mark_fault = (\<lambda>n w. None),
       world = 1,
       journal = [Applying ''storage_lvm_skipactivation'',
                  BodyReturned ''storage_lvm_skipactivation'' (Some (ErrorString ''boom''))]\<rparr>)
   \<and> stage (hd (patches (\<lambda>b. body_boom))) = patchPostDaemonStorage
   \<and> stage (hd (patches (\<lambda>b. body_boom))) \<noteq> patchNoStageSet"
proof -
  have run: "patchesApply quote_ascii (patches (\<lambda>b. body_boom)) daemon0 patchPostDaemonStorage
   = (Some (WrapError ''Failed applying patch \"storage_lvm_skipactivation\": boom''
              (ErrorString ''boom'')),
      \<lparr>node_patches = [], get_fault = (\<lambda>w. None), mark_fault = (\<lambda>n w. None),
       world = 1,
       journal = [Applying ''storage_lvm_skipactivation'',
                  BodyReturned ''storage_lvm_skipactivation'' (Some (ErrorString ''boom''))]\<rparr>)"
    by (simp add: patches_def run_defs)
  have first: "hd (patches (\<lambda>b. body_boom)) \<in> set (patches (\<lambda>b. body_boom))"
    by (simp add: patches_def)
  show ?thesis
    using run first
      shipped_registry_has_stages [where body = "\<lambda>b. body_boom" and q = quote_ascii
        and d = daemon0 and st = patchPostDaemonStorage
        and err = "WrapError ''Failed applying patch \"storage_lvm_skipactivation\": boom''
              (ErrorString ''boom'')"
        and d' = "\<lparr>node_patches = [], get_fault = (\<lambda>w. None), mark_fault = (\<lambda>n w. None),
       world = 1,
       journal = [Applying ''storage_lvm_skipactivation'',
                  BodyReturned ''storage_lvm_skipactivation'' (Some (ErrorString ''boom''))]\<rparr>"]
    by (simp add: patches_def run_defs)
qed

end
